theory Spec2Isabelle
  imports Main "HOL-Library.AList"
begin

section \<open>JavaScript values\<close>

text \<open>
  The values that flow through \<^verbatim>\<open>app.js\<close> come from \<^verbatim>\<open>JSON.parse\<close> (the manifest) or are
  built from them by object literals; a missing property reads as \<^verbatim>\<open>undefined\<close>.
  Strings are lists of code units in the range 0..255 (the Latin-1 part of UTF-16);
  numbers are the integers that JavaScript prints in plain decimal notation.
  An object is the list of its own properties, looked up by name.
\<close>

datatype jsval =
    JUndefined
  | JNull
  | JBool bool
  | JNum int
  | JStr string
  | JArr "jsval list"
  | JObj "(string \<times> jsval) list"

type_synonym object = "(string \<times> jsval) list"

datatype error =
    TypeError
  | DataError
  | StorageError
  | FetchError
  | CatalogNotFound
  | SyntaxError

text \<open>Truthiness, as tested by \<^verbatim>\<open>||\<close>, \<^verbatim>\<open>!\<close>, \<^verbatim>\<open>? :\<close> and \<^verbatim>\<open>if\<close>.\<close>

fun truthy :: "jsval \<Rightarrow> bool" where
  "truthy JUndefined = False"
| "truthy JNull = False"
| "truthy (JBool b) = b"
| "truthy (JNum n) = (n \<noteq> 0)"
| "truthy (JStr s) = (s \<noteq> [])"
| "truthy (JArr xs) = True"
| "truthy (JObj kvs) = True"

text \<open>\<^verbatim>\<open>a || b\<close> for an operand \<open>b\<close> without effects.\<close>

definition or_else :: "jsval \<Rightarrow> jsval \<Rightarrow> jsval" where
  "or_else a b = (if truthy a then a else b)"

text \<open>\<^verbatim>\<open>obj.k\<close> on an object: the own property, or \<^verbatim>\<open>undefined\<close>.\<close>

definition property :: "object \<Rightarrow> string \<Rightarrow> jsval" where
  "property obj k = (case map_of obj k of None \<Rightarrow> JUndefined | Some v \<Rightarrow> v)"

text \<open>
  \<^verbatim>\<open>v.k\<close> on any value, for the property names the program reads from a manifest record
  (\<^verbatim>\<open>id\<close>, \<^verbatim>\<open>title\<close>, \<^verbatim>\<open>year\<close>, ...; none of them is defined on a prototype):
  \<^verbatim>\<open>null\<close> and \<^verbatim>\<open>undefined\<close> throw a TypeError, a primitive or an array reads as
  \<^verbatim>\<open>undefined\<close>.
\<close>

fun get_property :: "jsval \<Rightarrow> string \<Rightarrow> error + jsval" where
  "get_property JUndefined k = Inl TypeError"
| "get_property JNull k = Inl TypeError"
| "get_property (JObj kvs) k = Inr (property kvs k)"
| "get_property v k = Inr JUndefined"

section \<open>Strings\<close>

definition is_digit :: "char \<Rightarrow> bool" where
  "is_digit c = (48 \<le> (of_char c :: nat) \<and> (of_char c :: nat) \<le> 57)"

definition is_lower_alnum :: "char \<Rightarrow> bool" where
  \<comment> \<open>the character class \<^verbatim>\<open>[a-z0-9]\<close>\<close>
  "is_lower_alnum c = (is_digit c \<or> (97 \<le> (of_char c :: nat) \<and> (of_char c :: nat) \<le> 122))"

definition lower_char :: "char \<Rightarrow> char" where
  \<comment> \<open>the lower-case mapping of the code units 0..255: A-Z and the accented capitals\<close>
  "lower_char c =
     (let n = (of_char c :: nat)
      in if (65 \<le> n \<and> n \<le> 90) \<or> (192 \<le> n \<and> n \<le> 222 \<and> n \<noteq> 215)
         then char_of (n + 32) else c)"

definition toLowerCase :: "string \<Rightarrow> string" where
  "toLowerCase s = map lower_char s"

definition is_space :: "char \<Rightarrow> bool" where
  \<comment> \<open>white space and line terminators among the code units 0..255\<close>
  "is_space c = ((of_char c :: nat) \<in> {9, 10, 11, 12, 13, 32, 160})"

definition trim :: "string \<Rightarrow> string" where
  "trim s = rev (dropWhile is_space (rev (dropWhile is_space s)))"

text \<open>\<^verbatim>\<open>s.includes(q)\<close>: \<open>q\<close> occurs in \<open>s\<close> as a contiguous run.\<close>

fun starts_with :: "string \<Rightarrow> string \<Rightarrow> bool" where
  "starts_with s [] = True"
| "starts_with [] (c # q) = False"
| "starts_with (d # s) (c # q) = (d = c \<and> starts_with s q)"

fun str_includes :: "string \<Rightarrow> string \<Rightarrow> bool" where
  "str_includes [] q = (q = [])"
| "str_includes (d # s) q = (starts_with (d # s) q \<or> str_includes s q)"

text \<open>
  \<^verbatim>\<open>s.replace(/[^a-z0-9]+/g, '-')\<close>: every maximal run of characters outside
  \<^verbatim>\<open>[a-z0-9]\<close> becomes one dash. The flag says whether the scan is inside such a run.
\<close>

fun replace_runs :: "bool \<Rightarrow> string \<Rightarrow> string" where
  "replace_runs in_run [] = []"
| "replace_runs in_run (c # cs) =
     (if is_lower_alnum c then c # replace_runs False cs
      else if in_run then replace_runs True cs
      else CHR ''-'' # replace_runs True cs)"

text \<open>
  Decimal notation of a number, as string conversion and template literals give it for
  an integer of magnitude below \<open>10^21\<close> (from there on JavaScript prints an exponent; the
  readings of \<^verbatim>\<open>Date.now()\<close> stay far below).
\<close>

definition digit_char :: "nat \<Rightarrow> char" where
  "digit_char d = char_of (48 + d)"

fun digits :: "nat \<Rightarrow> string" where
  "digits n = (if n < 10 then [digit_char n] else digits (n div 10) @ [digit_char (n mod 10)])"

declare digits.simps [simp del]

definition number_to_string :: "int \<Rightarrow> string" where
  "number_to_string n = (if n < 0 then CHR ''-'' # digits (nat (- n)) else digits (nat n))"

fun join :: "string \<Rightarrow> string list \<Rightarrow> string" where
  "join sep [] = []"
| "join sep [s] = s"
| "join sep (s # t # ss) = s @ sep @ join sep (t # ss)"

text \<open>
  String conversion (\<^verbatim>\<open>+\<close> with a string operand, property keys): an array joins its
  elements with commas, \<^verbatim>\<open>null\<close> and \<^verbatim>\<open>undefined\<close> elements giving the empty string; an
  object gives \<^verbatim>\<open>[object Object]\<close>.
\<close>

fun to_string :: "jsval \<Rightarrow> string" where
  "to_string JUndefined = ''undefined''"
| "to_string JNull = ''null''"
| "to_string (JBool b) = (if b then ''true'' else ''false'')"
| "to_string (JNum n) = number_to_string n"
| "to_string (JStr s) = s"
| "to_string (JArr xs) =
     join '','' (map (\<lambda>x. if x = JNull \<or> x = JUndefined then [] else to_string x) xs)"
| "to_string (JObj kvs) = ''[object Object]''"

section \<open>Normalization of a manifest record\<close>

definition bind_result :: "error + 'a \<Rightarrow> ('a \<Rightarrow> error + 'b) \<Rightarrow> error + 'b" where
  "bind_result r f = (case r of Inl e \<Rightarrow> Inl e | Inr v \<Rightarrow> f v)"

text \<open>
  The right operand of \<^verbatim>\<open>it.id || (...)\<close>, evaluated at clock reading \<open>t\<close> (the value of
  \<^verbatim>\<open>Date.now()\<close>). Only a string has a \<^verbatim>\<open>toLowerCase\<close> method: for any other truthy title
  the call throws a TypeError.
\<close>

definition derived_id :: "jsval \<Rightarrow> int \<Rightarrow> error + jsval" where
  "derived_id title t =
     (if truthy title then
        (case title of
           JStr s \<Rightarrow> Inr (JStr (replace_runs False (toLowerCase s) @ ''-'' @ number_to_string t))
         | _ \<Rightarrow> Inl TypeError)
      else Inr (JStr (''item-'' @ number_to_string t)))"

text \<open>The body of the seeding loop up to the object literal (lines 73 to 83).\<close>

definition normalize_record :: "jsval \<Rightarrow> int \<Rightarrow> error + object" where
  "normalize_record it t =
     bind_result (get_property it ''id'') (\<lambda>raw_id.
     bind_result (get_property it ''title'') (\<lambda>title.
     bind_result (if truthy raw_id then Inr raw_id else derived_id title t) (\<lambda>ident.
     bind_result (get_property it ''year'') (\<lambda>year.
     bind_result (get_property it ''description'') (\<lambda>description.
     bind_result (get_property it ''poster'') (\<lambda>poster.
     bind_result (get_property it ''category'') (\<lambda>category.
     bind_result (get_property it ''themeColor'') (\<lambda>themeColor.
     bind_result (get_property it ''sources'') (\<lambda>sources.
     bind_result (get_property it ''source'') (\<lambda>source.
       Inr [(''id'', ident),
            (''title'', or_else title (JStr ''Untitled'')),
            (''year'', year),
            (''description'', or_else description (JStr [])),
            (''poster'', or_else poster (JStr [])),
            (''category'', or_else category (JStr ''Uncategorized'')),
            (''themeColor'', or_else themeColor JNull),
            (''sources'', or_else sources (if truthy source then JArr [source] else JArr []))]
     ))))))))))"

section \<open>The object store\<close>

text \<open>
  The object store \<^verbatim>\<open>items\<close> has the key path \<^verbatim>\<open>id\<close>. IndexedDB accepts as keys numbers,
  strings and arrays of keys (dates and binary keys do not occur in JSON), orders them
  number < string < array, and \<^verbatim>\<open>getAll\<close> returns the records in ascending key order.
  The store is the list of its records in that order.
\<close>

type_synonym store = "(jsval \<times> object) list"

fun valid_key :: "jsval \<Rightarrow> bool" where
  "valid_key (JNum n) = True"
| "valid_key (JStr s) = True"
| "valid_key (JArr xs) = list_all valid_key xs"
| "valid_key v = False"

datatype key_order = KeyLess | KeyEqual | KeyGreater

fun key_rank :: "jsval \<Rightarrow> nat" where
  "key_rank (JNum n) = 0"
| "key_rank (JStr s) = 2"
| "key_rank (JArr xs) = 4"
| "key_rank v = 5"

fun compare_strings :: "string \<Rightarrow> string \<Rightarrow> key_order" where
  "compare_strings [] [] = KeyEqual"
| "compare_strings [] (b # bs) = KeyLess"
| "compare_strings (a # as) [] = KeyGreater"
| "compare_strings (a # as) (b # bs) =
     (if (of_char a :: nat) < of_char b then KeyLess
      else if (of_char b :: nat) < of_char a then KeyGreater
      else compare_strings as bs)"

fun compare_keys :: "jsval \<Rightarrow> jsval \<Rightarrow> key_order"
  and compare_key_lists :: "jsval list \<Rightarrow> jsval list \<Rightarrow> key_order" where
  "compare_keys (JNum a) (JNum b) =
     (if a < b then KeyLess else if b < a then KeyGreater else KeyEqual)"
| "compare_keys (JStr a) (JStr b) = compare_strings a b"
| "compare_keys (JArr a) (JArr b) = compare_key_lists a b"
| "compare_keys a b =
     (if key_rank a < key_rank b then KeyLess
      else if key_rank b < key_rank a then KeyGreater else KeyEqual)"
| "compare_key_lists [] [] = KeyEqual"
| "compare_key_lists [] (b # bs) = KeyLess"
| "compare_key_lists (a # as) [] = KeyGreater"
| "compare_key_lists (a # as) (b # bs) =
     (case compare_keys a b of
        KeyEqual \<Rightarrow> compare_key_lists as bs
      | c \<Rightarrow> c)"

text \<open>\<^verbatim>\<open>store.put(value)\<close> on an accepted record: insert, or replace the record of the same key.\<close>

fun store_put :: "store \<Rightarrow> jsval \<Rightarrow> object \<Rightarrow> store" where
  "store_put [] k v = [(k, v)]"
| "store_put ((k', v') # rest) k v =
     (case compare_keys k k' of
        KeyLess \<Rightarrow> (k, v) # (k', v') # rest
      | KeyEqual \<Rightarrow> (k, v) # rest
      | KeyGreater \<Rightarrow> (k', v') # store_put rest k v)"

definition store_getAll :: "store \<Rightarrow> object list" where
  "store_getAll s = map snd s"

section \<open>The environment and the application state\<close>

text \<open>
  What the program receives from outside: the outcome of \<^verbatim>\<open>fetch('catalog.json')\<close>
  (a network failure, or a response with its \<^verbatim>\<open>ok\<close> flag and its body parsed as JSON,
  \<open>None\<close> when the body is not JSON), the reading of \<^verbatim>\<open>Date.now()\<close> during the \<open>k\<close>-th
  iteration of the seeding loop, whether the storage medium accepts the \<open>k\<close>-th put, and
  whether it answers \<^verbatim>\<open>getAll\<close>.
\<close>

datatype fetch_outcome = NetworkFailure | HttpResponse bool "jsval option"

record env =
  fetch_result :: fetch_outcome
  now :: "nat \<Rightarrow> int"
  put_ok :: "nat \<Rightarrow> bool"
  getAll_ok :: bool

text \<open>The trace of what the program did to its collaborators.\<close>

datatype event = Fetch | PutAttempt object | GetAll | Warn error

datatype card = EmptyCard | ItemCard object

record row =
  label :: string
  cards :: "card list"

datatype rows_view = EmptyNotice | Rows "row list"

record hero_view =
  hero_title :: string
  hero_desc :: string
  hero_poster :: string
  hero_accent :: string

record app =
  db :: store
  itemsCache :: "object list"
  events :: "event list"
  heroEl :: hero_view
  rowsEl :: rows_view

section \<open>IndexedDB helpers\<close>

text \<open>
  \<^verbatim>\<open>idbPut\<close>: the put throws a DataError when the value's \<^verbatim>\<open>id\<close> is not a valid key, and the
  request fails when the medium rejects the write; either way the promise is rejected.
\<close>

definition idbPut :: "env \<Rightarrow> nat \<Rightarrow> store \<Rightarrow> object \<Rightarrow> error + store" where
  "idbPut e k s v =
     (if \<not> valid_key (property v ''id'') then Inl DataError
      else if \<not> put_ok e k then Inl StorageError
      else Inr (store_put s (property v ''id'') v))"

definition idbGetAll :: "env \<Rightarrow> store \<Rightarrow> error + object list" where
  "idbGetAll e s = (if getAll_ok e then Inr (store_getAll s) else Inl StorageError)"

section \<open>Loading and seeding\<close>

definition loadItems :: "env \<Rightarrow> app \<Rightarrow> error + app" where
  "loadItems e st =
     (case idbGetAll e (db st) of
        Inl err \<Rightarrow> Inl err
      | Inr items \<Rightarrow> Inr (st\<lparr>itemsCache := items, events := events st @ [GetAll]\<rparr>))"

text \<open>
  \<^verbatim>\<open>for (const it of catalog)\<close>: an array gives its elements, a string its characters;
  any other JSON value is not iterable.
\<close>

fun iterate :: "jsval \<Rightarrow> error + jsval list" where
  "iterate (JArr xs) = Inr xs"
| "iterate (JStr s) = Inr (map (\<lambda>c. JStr [c]) s)"
| "iterate v = Inl TypeError"

text \<open>
  The loop of lines 71 to 85 from its \<open>k\<close>-th iteration on, as a pair of the state reached
  and the exception that left the loop, if any. An exception of the normalization or a
  rejected put leaves the loop: the records after it are not visited.
\<close>

fun seed_loop :: "env \<Rightarrow> nat \<Rightarrow> jsval list \<Rightarrow> app \<Rightarrow> app \<times> error option" where
  "seed_loop e k [] st = (st, None)"
| "seed_loop e k (it # rest) st =
     (case normalize_record it (now e k) of
        Inl err \<Rightarrow> (st, Some err)
      | Inr item \<Rightarrow>
          (case idbPut e k (db st) item of
             Inl err \<Rightarrow> (st\<lparr>events := events st @ [PutAttempt item]\<rparr>, Some err)
           | Inr s \<Rightarrow> seed_loop e (Suc k) rest
                       (st\<lparr>db := s, events := events st @ [PutAttempt item]\<rparr>)))"

text \<open>The \<^verbatim>\<open>catch\<close> block: the error is logged, the state is left as it is.\<close>

definition warn :: "error \<Rightarrow> app \<Rightarrow> app" where
  "warn err st = st\<lparr>events := events st @ [Warn err]\<rparr>"

definition seedFromCatalogIfEmpty :: "env \<Rightarrow> app \<Rightarrow> app" where
  "seedFromCatalogIfEmpty e st =
     (if itemsCache st \<noteq> [] then st
      else
        let st1 = st\<lparr>events := events st @ [Fetch]\<rparr> in
        (case fetch_result e of
           NetworkFailure \<Rightarrow> warn FetchError st1
         | HttpResponse ok body \<Rightarrow>
             if \<not> ok then warn CatalogNotFound st1
             else
               (case body of
                  None \<Rightarrow> warn SyntaxError st1
                | Some catalog \<Rightarrow>
                    (case iterate catalog of
                       Inl err \<Rightarrow> warn err st1
                     | Inr records \<Rightarrow>
                         (case seed_loop e 0 records st1 of
                            (st2, Some err) \<Rightarrow> warn err st2
                          | (st2, None) \<Rightarrow>
                              (case loadItems e st2 of
                                 Inl err \<Rightarrow> warn err st2
                               | Inr st3 \<Rightarrow> st3))))))"

section \<open>Grouping\<close>

text \<open>
  The accumulator of \<^verbatim>\<open>groupItems\<close> is an object literal \<^verbatim>\<open>{}\<close>: its own properties, in
  the order of their creation, are the groups. A category that converts to the name of a
  property inherited from \<^verbatim>\<open>Object.prototype\<close> finds that inherited value instead of an
  array, no group is created, and the call of \<^verbatim>\<open>push\<close> on it throws a TypeError.
\<close>

type_synonym grouped = "(string \<times> object list) list"

definition object_prototype_keys :: "string list" where
  "object_prototype_keys =
     [''constructor'', ''__defineGetter__'', ''__defineSetter__'', ''hasOwnProperty'',
      ''__lookupGetter__'', ''__lookupSetter__'', ''isPrototypeOf'',
      ''propertyIsEnumerable'', ''toString'', ''valueOf'', ''__proto__'',
      ''toLocaleString'']"

definition group_of :: "grouped \<Rightarrow> string \<Rightarrow> object list" where
  "group_of acc cat = (case map_of acc cat of None \<Rightarrow> [] | Some xs \<Rightarrow> xs)"

definition group_key :: "object \<Rightarrow> string" where
  "group_key item = to_string (or_else (property item ''category'') (JStr ''Featured''))"

definition group_step :: "grouped \<Rightarrow> object \<Rightarrow> error + grouped" where
  "group_step acc item =
     (let cat = group_key item
      in if cat \<in> set object_prototype_keys then Inl TypeError
         else Inr (AList.update cat (group_of acc cat @ [item]) acc))"

fun group_loop :: "grouped \<Rightarrow> object list \<Rightarrow> error + grouped" where
  "group_loop acc [] = Inr acc"
| "group_loop acc (item # rest) =
     (case group_step acc item of
        Inl err \<Rightarrow> Inl err
      | Inr acc' \<Rightarrow> group_loop acc' rest)"

definition groupItems :: "object list \<Rightarrow> error + grouped" where
  "groupItems items = group_loop [] items"

text \<open>
  \<^verbatim>\<open>Object.keys\<close>: the keys that are array indices (canonical decimal numerals below
  \<open>2^32 - 1\<close>) come first, in ascending numeric order, then the other keys in the order of
  their creation.
\<close>

definition parse_nat :: "string \<Rightarrow> nat" where
  "parse_nat s = foldl (\<lambda>a c. 10 * a + (of_char c - 48)) 0 s"

definition is_array_index :: "string \<Rightarrow> bool" where
  "is_array_index s =
     (s \<noteq> [] \<and> list_all is_digit s \<and> digits (parse_nat s) = s \<and> parse_nat s < 4294967295)"

definition object_keys :: "grouped \<Rightarrow> string list" where
  "object_keys g =
     sort_key parse_nat (filter is_array_index (map fst g))
     @ filter (\<lambda>k. \<not> is_array_index k) (map fst g)"

section \<open>Hero\<close>

definition default_accent :: string where
  "default_accent = ''#e50914''"

definition no_content_hero :: object where
  "no_content_hero =
     [(''title'', JStr ''No content''),
      (''description'', JStr ''Add items via catalog.json in the repository''),
      (''poster'', JStr []),
      (''themeColor'', JStr ''#e50914'')]"

definition pickHero :: "object list \<Rightarrow> object" where
  "pickHero cache =
     (case cache of
        [] \<Rightarrow> no_content_hero
      | first # rest \<Rightarrow>
          (case find (\<lambda>i. truthy (property i ''themeColor'')) cache of
             Some themed \<Rightarrow> themed
           | None \<Rightarrow> first))"

definition renderHero :: "object \<Rightarrow> hero_view" where
  "renderHero item =
     \<lparr>hero_title = to_string (or_else (property item ''title'') (JStr ''No content'')),
      hero_desc = to_string (or_else (property item ''description'') (JStr [])),
      hero_poster = to_string (or_else (property item ''poster'') (JStr [])),
      hero_accent = to_string (or_else (property item ''themeColor'') (JStr default_accent))\<rparr>"

section \<open>Rows\<close>

definition CARDS_PER_ROW :: nat where
  "CARDS_PER_ROW = 8"

text \<open>\<^verbatim>\<open>raw.slice(a, b)\<close> for \<open>a \<le> b\<close>.\<close>

definition slice :: "'a list \<Rightarrow> nat \<Rightarrow> nat \<Rightarrow> 'a list" where
  "slice xs a b = take (b - a) (drop a xs)"

text \<open>\<^verbatim>\<open>for (let i = 0; i < toAdd; i++) raw.push(null)\<close>, counted down.\<close>

fun push_nulls :: "nat \<Rightarrow> object option list \<Rightarrow> object option list" where
  "push_nulls 0 raw = raw"
| "push_nulls (Suc n) raw = push_nulls n (raw @ [None])"

definition pad :: "object list \<Rightarrow> object option list" where
  "pad items =
     (let raw = map Some items;
          remainder = length raw mod CARDS_PER_ROW
      in if remainder \<noteq> 0 then push_nulls (CARDS_PER_ROW - remainder) raw else raw)"

definition make_card :: "object option \<Rightarrow> card" where
  "make_card item = (case item of None \<Rightarrow> EmptyCard | Some i \<Rightarrow> ItemCard i)"

text \<open>The loop over \<^verbatim>\<open>start\<close> (lines 149 to 198): one row per chunk.\<close>

function chunk_loop :: "string \<Rightarrow> nat \<Rightarrow> object option list \<Rightarrow> row list" where
  "chunk_loop cat start raw =
     (if start < length raw
      then \<lparr>label = cat @ (if start > 0 then '' (more)'' else []),
            cards = map make_card (slice raw start (start + CARDS_PER_ROW))\<rparr>
           # chunk_loop cat (start + CARDS_PER_ROW) raw
      else [])"
  by pat_completeness auto
termination
  by (relation "measure (\<lambda>(cat, start, raw). length raw - start)")
     (auto simp: CARDS_PER_ROW_def)

declare chunk_loop.simps [simp del]

definition category_rows :: "string \<Rightarrow> object list \<Rightarrow> row list" where
  "category_rows cat items = chunk_loop cat 0 (pad items)"

definition renderRows :: "grouped \<Rightarrow> rows_view" where
  "renderRows g =
     (if object_keys g = [] then EmptyNotice
      else Rows (concat (map (\<lambda>cat. category_rows cat (group_of g cat)) (object_keys g))))"

section \<open>Rendering and search\<close>

text \<open>
  \<^verbatim>\<open>renderAll\<close> and \<^verbatim>\<open>onSearch\<close> return the state they leave and the exception they end
  with, if any: the hero is already rendered when \<^verbatim>\<open>groupItems\<close> throws.
\<close>

definition renderAll :: "app \<Rightarrow> app \<times> error option" where
  "renderAll st =
     (let st1 = st\<lparr>heroEl := renderHero (pickHero (itemsCache st))\<rparr>
      in case groupItems (itemsCache st) of
           Inl err \<Rightarrow> (st1, Some err)
         | Inr g \<Rightarrow> (st1\<lparr>rowsEl := renderRows g\<rparr>, None))"

definition search_text :: "object \<Rightarrow> string" where
  "search_text i =
     to_string (property i ''title'') @ '' ''
     @ to_string (or_else (property i ''description'') (JStr [])) @ '' ''
     @ to_string (or_else (property i ''category'') (JStr []))"

definition matches :: "string \<Rightarrow> object \<Rightarrow> bool" where
  "matches q i = str_includes (toLowerCase (search_text i)) q"

definition onSearch :: "string \<Rightarrow> app \<Rightarrow> app \<times> error option" where
  "onSearch input st =
     (let q = trim (toLowerCase input)
      in if q = [] then renderAll st
         else
           (case groupItems (filter (matches q) (itemsCache st)) of
              Inl err \<Rightarrow> (st, Some err)
            | Inr g \<Rightarrow> (st\<lparr>rowsEl := renderRows g\<rparr>, None)))"

text \<open>Session start, with the database already open.\<close>

definition init :: "env \<Rightarrow> app \<Rightarrow> app \<times> error option" where
  "init e st =
     (case loadItems e st of
        Inl err \<Rightarrow> (st, Some err)
      | Inr st1 \<Rightarrow> renderAll (seedFromCatalogIfEmpty e st1))"

text \<open>The row that the loop builds at \<^verbatim>\<open>start = 8 * j\<close>, in closed form.\<close>

definition row_at :: "string \<Rightarrow> object option list \<Rightarrow> nat \<Rightarrow> row" where
  "row_at cat raw j =
     \<lparr>label = cat @ (if j > 0 then '' (more)'' else []),
      cards = map make_card (take 8 (drop (8 * j) raw))\<rparr>"

text \<open>What reading property \<open>k\<close> of a manifest record gives when the read does not throw.\<close>

definition raw_field :: "jsval \<Rightarrow> string \<Rightarrow> jsval" where
  "raw_field it k = (case get_property it k of Inl err \<Rightarrow> JUndefined | Inr v \<Rightarrow> v)"

section \<open>Example environments\<close>

text \<open>
  A first session (empty store, empty cache, nothing logged), a clock that does not
  advance during the seeding loop and one that advances by a millisecond per record, a
  medium that accepts every put and one that accepts only the first.
\<close>

definition first_run :: app where
  "first_run =
     \<lparr>db = [], itemsCache = [], events = [],
      heroEl = renderHero no_content_hero, rowsEl = EmptyNotice\<rparr>"

definition frozen_clock :: "nat \<Rightarrow> int" where
  "frozen_clock k = 1700"

definition ticking_clock :: "nat \<Rightarrow> int" where
  "ticking_clock k = 1700 + int k"

definition accept_all :: "nat \<Rightarrow> bool" where
  "accept_all k = True"

definition accept_first :: "nat \<Rightarrow> bool" where
  "accept_first k = (k < 1)"

text \<open>The Item that normalization makes of a record with a string id and a title only.\<close>

definition plain_item :: "string \<Rightarrow> string \<Rightarrow> object" where
  "plain_item ident title =
     [(''id'', JStr ident), (''title'', JStr title), (''year'', JUndefined),
      (''description'', JStr []), (''poster'', JStr []),
      (''category'', JStr ''Uncategorized''), (''themeColor'', JNull),
      (''sources'', JArr [])]"

section \<open>Pagination\<close>

lemma ceil8: "((n::nat) + 7) div 8 = (if n mod 8 = 0 then n div 8 else Suc (n div 8))"
  by presburger

lemma split8:
  fixes n :: nat
  obtains q r where "n = 8 * q + r" "r < 8" "n div 8 = q" "n mod 8 = r"
    "(n + 7) div 8 = (if r = 0 then q else Suc q)"
proof -
  have "n = 8 * (n div 8) + n mod 8" by simp
  moreover have "n mod 8 < 8" by simp
  ultimately show thesis using that [of "n div 8" "n mod 8"] ceil8 [of n] by blast
qed

lemma padded_length: "(n::nat) + (if n mod 8 = 0 then 0 else 8 - n mod 8) = 8 * ((n + 7) div 8)"
proof -
  obtain q r where "n = 8 * q + r" "r < 8" "n div 8 = q" "n mod 8 = r"
    "(n + 7) div 8 = (if r = 0 then q else Suc q)" by (rule split8)
  then show ?thesis by (cases "r = 0") auto
qed

lemma fill_count:
  "8 * j < (n::nat) \<Longrightarrow> n \<le> 8 * j + 8 \<Longrightarrow>
   (if n mod 8 = 0 then 0 else 8 - n mod 8) = 8 * j + 8 - n"
proof -
  assume lo: "8 * j < n" and hi: "n \<le> 8 * j + 8"
  obtain q r where *: "n = 8 * q + r" "r < 8" "n div 8 = q" "n mod 8 = r"
    "(n + 7) div 8 = (if r = 0 then q else Suc q)" by (rule split8)
  show ?thesis
  proof (cases "r = 0")
    case True
    with * lo hi have "q = Suc j" by simp
    with True * show ?thesis by simp
  next
    case False
    with * lo hi have "q = j" by simp
    with False * show ?thesis by simp
  qed
qed

lemma last_row_arith:
  fixes n :: nat
  assumes "0 < n" and "k = (if n mod 8 = 0 then 8 else n mod 8)" and "m = (n + 7) div 8"
  shows "0 < m" and "n - k = 8 * (m - 1)" and "8 * (m - 1) < n" and "n \<le> 8 * (m - 1) + 8"
    and "8 * (m - 1) + 8 - n = 8 - k" and "k \<le> n"
proof -
  obtain q r where *: "n = 8 * q + r" "r < 8" "n div 8 = q" "n mod 8 = r"
    "(n + 7) div 8 = (if r = 0 then q else Suc q)" by (rule split8)
  with assms show "0 < m" by (cases "r = 0") auto
  from * assms show "n - k = 8 * (m - 1)" by (cases "r = 0") auto
  from * assms show "8 * (m - 1) < n" by (cases "r = 0") auto
  from * assms show "n \<le> 8 * (m - 1) + 8" by (cases "r = 0") auto
  from * assms show "8 * (m - 1) + 8 - n = 8 - k" by (cases "r = 0") auto
  from * assms show "k \<le> n" by (cases "r = 0") auto
qed

lemma full_row_arith: "Suc i < ((n::nat) + 7) div 8 \<Longrightarrow> 8 * i + 8 \<le> n"
proof -
  assume i: "Suc i < (n + 7) div 8"
  obtain q r where *: "n = 8 * q + r" "r < 8" "n div 8 = q" "n mod 8 = r"
    "(n + 7) div 8 = (if r = 0 then q else Suc q)" by (rule split8)
  with i show ?thesis by (cases "r = 0") auto
qed

lemma push_nulls_eq: "push_nulls k raw = raw @ replicate k None"
  by (induction k arbitrary: raw) (simp_all add: replicate_app_Cons_same)

lemma pad_eq:
  "pad items = map Some items
     @ replicate (if length items mod 8 = 0 then 0 else 8 - length items mod 8) None"
  by (simp add: pad_def Let_def CARDS_PER_ROW_def push_nulls_eq)

lemma length_pad: "length (pad items) = 8 * ((length items + 7) div 8)"
  using padded_length [of "length items"] by (simp add: pad_eq)

lemma chunk_loop_rows:
  "length raw = 8 * m \<Longrightarrow> k \<le> m \<Longrightarrow> chunk_loop cat (8 * k) raw = map (row_at cat raw) [k..<m]"
proof (induction "m - k" arbitrary: k)
  case 0
  then show ?case by (simp add: chunk_loop.simps)
next
  case (Suc d)
  then have lt: "k < m" and d: "d = m - Suc k" and le: "Suc k \<le> m" by simp_all
  have rest: "chunk_loop cat (8 * Suc k) raw = map (row_at cat raw) [Suc k..<m]"
    using Suc.hyps(1) [OF d Suc.prems(1) le] .
  have "chunk_loop cat (8 * k) raw = row_at cat raw k # chunk_loop cat (8 * Suc k) raw"
    using lt Suc.prems(1)
    by (subst chunk_loop.simps) (simp add: row_at_def slice_def CARDS_PER_ROW_def add.commute)
  with rest lt show ?case by (simp add: upt_conv_Cons)
qed

lemma category_rows_eq:
  "category_rows cat items = map (row_at cat (pad items)) [0..<(length items + 7) div 8]"
  using chunk_loop_rows [of "pad items" "(length items + 7) div 8" 0 cat]
  by (simp add: category_rows_def length_pad)

lemma make_card_Some: "map make_card (map Some xs) = map ItemCard xs"
  by (simp add: make_card_def)

lemma make_card_None: "map make_card (replicate k None) = replicate k EmptyCard"
  by (simp add: make_card_def)

lemma full_chunk:
  assumes "8 * j + 8 \<le> length items"
  shows "cards (row_at cat (pad items) j) = map ItemCard (take 8 (drop (8 * j) items))"
  using assms by (simp add: row_at_def pad_eq drop_map take_map make_card_def)

lemma last_chunk:
  assumes "8 * j < length items" "length items \<le> 8 * j + 8"
  shows "cards (row_at cat (pad items) j) =
         map ItemCard (drop (8 * j) items) @ replicate (8 * j + 8 - length items) EmptyCard"
proof -
  have "(if length items mod 8 = 0 then 0 else 8 - length items mod 8) = 8 * j + 8 - length items"
    using assms by (rule fill_count)
  with assms show ?thesis
    by (simp add: row_at_def pad_eq drop_map make_card_def)
qed


text \<open>
  C1. A category with \<open>n\<close> items is rendered as \<open>ceil (n / 8)\<close> rows of exactly 8 cards;
  every row before the last holds the next 8 items in order, and the last row holds the
  remaining \<open>n mod 8\<close> items (8 of them when \<open>n mod 8 = 0\<close>) followed by empty cards
  up to 8.
\<close>

theorem pagination_invariant:
  "CARDS_PER_ROW = 8
   \<and> length (category_rows cat items) = (length items + CARDS_PER_ROW - 1) div CARDS_PER_ROW
   \<and> (\<forall>r \<in> set (category_rows cat items). length (cards r) = CARDS_PER_ROW)
   \<and> (\<forall>i. Suc i < length (category_rows cat items) \<longrightarrow>
         cards (category_rows cat items ! i)
         = map ItemCard (take CARDS_PER_ROW (drop (CARDS_PER_ROW * i) items)))
   \<and> (items \<noteq> [] \<longrightarrow>
         (let k = (if length items mod CARDS_PER_ROW = 0 then CARDS_PER_ROW
                   else length items mod CARDS_PER_ROW)
          in cards (last (category_rows cat items))
             = map ItemCard (drop (length items - k) items)
               @ replicate (CARDS_PER_ROW - k) EmptyCard
           \<and> length (drop (length items - k) items) = k))"
proof -
  let ?n = "length items"
  let ?m = "(?n + 7) div 8"
  let ?rs = "category_rows cat items"
  have rs: "?rs = map (row_at cat (pad items)) [0..<?m]"
    by (rule category_rows_eq)
  have len: "length ?rs = ?m"
    by (simp add: rs)
  have slots: "\<forall>r \<in> set ?rs. length (cards r) = 8"
  proof
    fix r assume "r \<in> set ?rs"
    then obtain j where j: "j < ?m" and r: "r = row_at cat (pad items) j"
      by (auto simp: rs)
    from j have "8 * j + 8 \<le> length (pad items)"
      by (simp add: length_pad)
    then show "length (cards r) = 8"
      by (simp add: r row_at_def)
  qed
  have full: "\<forall>i. Suc i < length ?rs \<longrightarrow>
      cards (?rs ! i) = map ItemCard (take 8 (drop (8 * i) items))"
  proof (intro allI impI)
    fix i assume "Suc i < length ?rs"
    then have i: "Suc i < ?m" by (simp add: len)
    then have "8 * i + 8 \<le> ?n" by (rule full_row_arith)
    then have "cards (row_at cat (pad items) i) = map ItemCard (take 8 (drop (8 * i) items))"
      by (rule full_chunk)
    with i show "cards (?rs ! i) = map ItemCard (take 8 (drop (8 * i) items))"
      by (simp add: rs)
  qed
  have last_row: "cards (last ?rs)
         = map ItemCard (drop (?n - k) items) @ replicate (8 - k) EmptyCard
           \<and> length (drop (?n - k) items) = k"
    if ne: "items \<noteq> []" and k: "k = (if ?n mod 8 = 0 then 8 else ?n mod 8)" for k
  proof -
    from ne have pos: "0 < ?n" by simp
    note ar = last_row_arith [OF pos k refl]
    from ar(1) have "last ?rs = row_at cat (pad items) (?m - 1)"
      by (simp add: rs last_map)
    then have "cards (last ?rs)
        = map ItemCard (drop (8 * (?m - 1)) items) @ replicate (8 * (?m - 1) + 8 - ?n) EmptyCard"
      using last_chunk [OF ar(3) ar(4)] by simp
    moreover have "length (drop (?n - k) items) = k"
      using ar(6) by simp
    ultimately show ?thesis
      by (simp add: ar(2) ar(5))
  qed
  show ?thesis
    unfolding CARDS_PER_ROW_def Let_def
    using len slots full last_row by simp
qed


text \<open>Nine items of one category: a full row and a row of one item and seven empty cards.\<close>

theorem pagination_invariant_witness:
  "length (category_rows ''Drama'' (map (\<lambda>n. [(''id'', JNum n)]) [1, 2, 3, 4, 5, 6, 7, 8, 9])) = 2
   \<and> cards (category_rows ''Drama'' (map (\<lambda>n. [(''id'', JNum n)]) [1, 2, 3, 4, 5, 6, 7, 8, 9]) ! 0)
       = map (\<lambda>n. ItemCard [(''id'', JNum n)]) [1, 2, 3, 4, 5, 6, 7, 8]
   \<and> cards (last (category_rows ''Drama'' (map (\<lambda>n. [(''id'', JNum n)]) [1, 2, 3, 4, 5, 6, 7, 8, 9])))
       = ItemCard [(''id'', JNum 9)] # replicate 7 EmptyCard"
proof -
  let ?items = "map (\<lambda>n. [(''id'', JNum n)]) [1, 2, 3, 4, 5, 6, 7, 8, 9]"
  note inv = pagination_invariant [of "''Drama''" ?items]
  from inv have len: "length (category_rows ''Drama'' ?items) = 2"
    by (simp add: CARDS_PER_ROW_def)
  from inv have "Suc 0 < length (category_rows ''Drama'' ?items) \<longrightarrow>
      cards (category_rows ''Drama'' ?items ! 0)
      = map ItemCard (take CARDS_PER_ROW (drop (CARDS_PER_ROW * 0) ?items))"
    by blast
  with len have first: "cards (category_rows ''Drama'' ?items ! 0)
      = map (\<lambda>n. ItemCard [(''id'', JNum n)]) [1, 2, 3, 4, 5, 6, 7, 8]"
    by (simp add: CARDS_PER_ROW_def)
  from inv have "cards (last (category_rows ''Drama'' ?items))
      = ItemCard [(''id'', JNum 9)] # replicate 7 EmptyCard"
    by (simp add: CARDS_PER_ROW_def)
  with len first show ?thesis by simp
qed

section \<open>Normalization: totality and the id\<close>

lemma normalize_nullish: "normalize_record JNull t = Inl TypeError" "normalize_record JUndefined t = Inl TypeError"
  by (simp_all add: normalize_record_def bind_result_def)

lemma normalize_eq:
  assumes "it \<noteq> JNull" "it \<noteq> JUndefined"
  shows "normalize_record it t =
    (case (if truthy (raw_field it ''id'') then Inr (raw_field it ''id'')
           else derived_id (raw_field it ''title'') t) of
       Inl err \<Rightarrow> Inl err
     | Inr ident \<Rightarrow>
         Inr [(''id'', ident),
              (''title'', or_else (raw_field it ''title'') (JStr ''Untitled'')),
              (''year'', raw_field it ''year''),
              (''description'', or_else (raw_field it ''description'') (JStr [])),
              (''poster'', or_else (raw_field it ''poster'') (JStr [])),
              (''category'', or_else (raw_field it ''category'') (JStr ''Uncategorized'')),
              (''themeColor'', or_else (raw_field it ''themeColor'') JNull),
              (''sources'', or_else (raw_field it ''sources'')
                 (if truthy (raw_field it ''source'') then JArr [raw_field it ''source'']
                  else JArr []))])"
  using assms
  by (cases it) (auto simp: normalize_record_def bind_result_def raw_field_def split: sum.split)

lemma derived_id_cases:
  "derived_id title t =
     (if \<not> truthy title then Inr (JStr (''item-'' @ number_to_string t))
      else if \<exists>s. title = JStr s
           then Inr (JStr (replace_runs False (toLowerCase (to_string title)) @ ''-'' @ number_to_string t))
      else Inl TypeError)"
  by (cases title) (simp_all add: derived_id_def)

lemma normalize_Inr_nonnull: "normalize_record it t = Inr item \<Longrightarrow> it \<noteq> JNull \<and> it \<noteq> JUndefined"
  by (auto simp: normalize_nullish)

text \<open>
  C4, as amended. Normalization is not total: it throws a TypeError on a \<^verbatim>\<open>null\<close> record,
  and on a record without a truthy \<^verbatim>\<open>id\<close> whose \<^verbatim>\<open>title\<close> is truthy but not a string. On
  every other record it yields one Item with the eight fields of the object literal, each
  falsy (in particular each absent) field replaced by its default, \<^verbatim>\<open>year\<close> copied as it is.
\<close>

theorem normalization_total_on:
  "(it = JNull \<or> it = JUndefined
      \<or> (\<not> truthy (raw_field it ''id'') \<and> truthy (raw_field it ''title'')
          \<and> (\<forall>s. raw_field it ''title'' \<noteq> JStr s))
    \<longrightarrow> normalize_record it t = Inl TypeError)
   \<and> (it \<noteq> JNull \<and> it \<noteq> JUndefined
      \<and> (truthy (raw_field it ''id'') \<or> \<not> truthy (raw_field it ''title'')
          \<or> (\<exists>s. raw_field it ''title'' = JStr s))
    \<longrightarrow> (\<exists>item. normalize_record it t = Inr item
         \<and> map fst item = [''id'', ''title'', ''year'', ''description'', ''poster'',
                            ''category'', ''themeColor'', ''sources'']
         \<and> property item ''title''
             = (if truthy (raw_field it ''title'') then raw_field it ''title'' else JStr ''Untitled'')
         \<and> property item ''year'' = raw_field it ''year''
         \<and> property item ''description''
             = (if truthy (raw_field it ''description'') then raw_field it ''description'' else JStr [])
         \<and> property item ''poster''
             = (if truthy (raw_field it ''poster'') then raw_field it ''poster'' else JStr [])
         \<and> property item ''category''
             = (if truthy (raw_field it ''category'') then raw_field it ''category''
                else JStr ''Uncategorized'')
         \<and> property item ''themeColor''
             = (if truthy (raw_field it ''themeColor'') then raw_field it ''themeColor'' else JNull)
         \<and> property item ''sources''
             = (if truthy (raw_field it ''sources'') then raw_field it ''sources''
                else if truthy (raw_field it ''source'') then JArr [raw_field it ''source'']
                else JArr [])))"
proof (intro conjI impI)
  assume bad: "it = JNull \<or> it = JUndefined
      \<or> (\<not> truthy (raw_field it ''id'') \<and> truthy (raw_field it ''title'')
          \<and> (\<forall>s. raw_field it ''title'' \<noteq> JStr s))"
  show "normalize_record it t = Inl TypeError"
  proof (cases "it = JNull \<or> it = JUndefined")
    case True
    then show ?thesis by (auto simp: normalize_nullish)
  next
    case False
    with bad show ?thesis by (simp add: normalize_eq derived_id_cases)
  qed
next
  assume good: "it \<noteq> JNull \<and> it \<noteq> JUndefined
      \<and> (truthy (raw_field it ''id'') \<or> \<not> truthy (raw_field it ''title'')
          \<or> (\<exists>s. raw_field it ''title'' = JStr s))"
  then have "\<exists>ident. (if truthy (raw_field it ''id'') then Inr (raw_field it ''id'')
      else derived_id (raw_field it ''title'') t) = Inr ident"
    by (cases "truthy (raw_field it ''id'')") (auto simp: derived_id_cases)
  then obtain ident where
    "(if truthy (raw_field it ''id'') then Inr (raw_field it ''id'')
      else derived_id (raw_field it ''title'') t) = Inr ident" ..
  with good show "\<exists>item. normalize_record it t = Inr item
         \<and> map fst item = [''id'', ''title'', ''year'', ''description'', ''poster'',
                            ''category'', ''themeColor'', ''sources'']
         \<and> property item ''title''
             = (if truthy (raw_field it ''title'') then raw_field it ''title'' else JStr ''Untitled'')
         \<and> property item ''year'' = raw_field it ''year''
         \<and> property item ''description''
             = (if truthy (raw_field it ''description'') then raw_field it ''description'' else JStr [])
         \<and> property item ''poster''
             = (if truthy (raw_field it ''poster'') then raw_field it ''poster'' else JStr [])
         \<and> property item ''category''
             = (if truthy (raw_field it ''category'') then raw_field it ''category''
                else JStr ''Uncategorized'')
         \<and> property item ''themeColor''
             = (if truthy (raw_field it ''themeColor'') then raw_field it ''themeColor'' else JNull)
         \<and> property item ''sources''
             = (if truthy (raw_field it ''sources'') then raw_field it ''sources''
                else if truthy (raw_field it ''source'') then JArr [raw_field it ''source'']
                else JArr [])"
    by (simp add: normalize_eq property_def or_else_def)
qed

text \<open>
  C4 as stated fails: a \<^verbatim>\<open>null\<close> record and a record with a numeric title make the
  normalization throw.
\<close>

theorem normalization_total_counterexample:
  "normalize_record JNull 1700 = Inl TypeError
   \<and> normalize_record (JObj [(''title'', JNum 5)]) 1700 = Inl TypeError"
  by (simp add: normalize_record_def bind_result_def derived_id_def property_def)

text \<open>
  The record of example scenario 1 is normalized with the defaults; a record whose title
  is \<^verbatim>\<open>true\<close> throws.
\<close>

theorem normalization_total_on_witness:
  "(\<exists>item. normalize_record (JObj [(''title'', JStr ''Alpha'')]) 1700 = Inr item
      \<and> property item ''title'' = JStr ''Alpha''
      \<and> property item ''year'' = JUndefined
      \<and> property item ''category'' = JStr ''Uncategorized''
      \<and> property item ''themeColor'' = JNull
      \<and> property item ''sources'' = JArr [])
   \<and> normalize_record (JObj [(''title'', JBool True)]) 1700 = Inl TypeError"
proof -
  have good: "JObj [(''title'', JStr ''Alpha'')] \<noteq> JNull
      \<and> JObj [(''title'', JStr ''Alpha'')] \<noteq> JUndefined
      \<and> (truthy (raw_field (JObj [(''title'', JStr ''Alpha'')]) ''id'')
         \<or> \<not> truthy (raw_field (JObj [(''title'', JStr ''Alpha'')]) ''title'')
         \<or> (\<exists>s. raw_field (JObj [(''title'', JStr ''Alpha'')]) ''title'' = JStr s))"
    by (simp add: raw_field_def property_def)
  have fields: "raw_field (JObj [(''title'', JStr ''Alpha'')]) ''title'' = JStr ''Alpha''"
    "raw_field (JObj [(''title'', JStr ''Alpha'')]) ''year'' = JUndefined"
    "raw_field (JObj [(''title'', JStr ''Alpha'')]) ''category'' = JUndefined"
    "raw_field (JObj [(''title'', JStr ''Alpha'')]) ''themeColor'' = JUndefined"
    "raw_field (JObj [(''title'', JStr ''Alpha'')]) ''sources'' = JUndefined"
    "raw_field (JObj [(''title'', JStr ''Alpha'')]) ''source'' = JUndefined"
    by (simp_all add: raw_field_def property_def)
  from normalization_total_on [of "JObj [(''title'', JStr ''Alpha'')]" 1700] good
  obtain item where item: "normalize_record (JObj [(''title'', JStr ''Alpha'')]) 1700 = Inr item"
    "property item ''title''
       = (if truthy (raw_field (JObj [(''title'', JStr ''Alpha'')]) ''title'')
          then raw_field (JObj [(''title'', JStr ''Alpha'')]) ''title'' else JStr ''Untitled'')"
    "property item ''year'' = raw_field (JObj [(''title'', JStr ''Alpha'')]) ''year''"
    "property item ''category''
       = (if truthy (raw_field (JObj [(''title'', JStr ''Alpha'')]) ''category'')
          then raw_field (JObj [(''title'', JStr ''Alpha'')]) ''category''
          else JStr ''Uncategorized'')"
    "property item ''themeColor''
       = (if truthy (raw_field (JObj [(''title'', JStr ''Alpha'')]) ''themeColor'')
          then raw_field (JObj [(''title'', JStr ''Alpha'')]) ''themeColor'' else JNull)"
    "property item ''sources''
       = (if truthy (raw_field (JObj [(''title'', JStr ''Alpha'')]) ''sources'')
          then raw_field (JObj [(''title'', JStr ''Alpha'')]) ''sources''
          else if truthy (raw_field (JObj [(''title'', JStr ''Alpha'')]) ''source'')
          then JArr [raw_field (JObj [(''title'', JStr ''Alpha'')]) ''source'']
          else JArr [])"
    by blast
  then have ok: "\<exists>item. normalize_record (JObj [(''title'', JStr ''Alpha'')]) 1700 = Inr item
      \<and> property item ''title'' = JStr ''Alpha''
      \<and> property item ''year'' = JUndefined
      \<and> property item ''category'' = JStr ''Uncategorized''
      \<and> property item ''themeColor'' = JNull
      \<and> property item ''sources'' = JArr []"
    by (simp add: fields)
  have "\<not> truthy (raw_field (JObj [(''title'', JBool True)]) ''id'')
        \<and> truthy (raw_field (JObj [(''title'', JBool True)]) ''title'')
        \<and> (\<forall>s. raw_field (JObj [(''title'', JBool True)]) ''title'' \<noteq> JStr s)"
    by (simp add: raw_field_def property_def)
  with normalization_total_on [of "JObj [(''title'', JBool True)]" 1700]
  have "normalize_record (JObj [(''title'', JBool True)]) 1700 = Inl TypeError" by blast
  with ok show ?thesis by blast
qed

text \<open>
  C9, as amended. A truthy raw \<^verbatim>\<open>id\<close> is used verbatim. A falsy one (the empty string, 0,
  \<^verbatim>\<open>false\<close>, \<^verbatim>\<open>null\<close>, or none) is replaced by the id derived from the title and the clock.
\<close>

theorem raw_id_verbatim:
  "(truthy (raw_field it ''id'') \<and> it \<noteq> JNull \<and> it \<noteq> JUndefined \<longrightarrow>
      (\<exists>item. normalize_record it t = Inr item \<and> property item ''id'' = raw_field it ''id''))
   \<and> (\<not> truthy (raw_field it ''id'') \<and> normalize_record it t = Inr item \<longrightarrow>
      derived_id (raw_field it ''title'') t = Inr (property item ''id''))"
proof (intro conjI impI)
  assume "truthy (raw_field it ''id'') \<and> it \<noteq> JNull \<and> it \<noteq> JUndefined"
  then show "\<exists>item. normalize_record it t = Inr item \<and> property item ''id'' = raw_field it ''id''"
    by (simp add: normalize_eq property_def)
next
  assume a: "\<not> truthy (raw_field it ''id'') \<and> normalize_record it t = Inr item"
  then have nn: "it \<noteq> JNull" "it \<noteq> JUndefined"
    using normalize_Inr_nonnull by blast+
  from a show "derived_id (raw_field it ''title'') t = Inr (property item ''id'')"
    unfolding normalize_eq [OF nn]
    by (auto simp: property_def split: sum.splits)
qed

text \<open>
  C9 as stated fails for the empty string: the raw id is present, and the Item's id is
  derived from the title.
\<close>

theorem raw_id_verbatim_counterexample:
  "get_property (JObj [(''id'', JStr []), (''title'', JStr ''A'')]) ''id'' = Inr (JStr [])
   \<and> normalize_record (JObj [(''id'', JStr []), (''title'', JStr ''A'')]) 7
     = Inr [(''id'', JStr ''a-7''), (''title'', JStr ''A''), (''year'', JUndefined),
            (''description'', JStr []), (''poster'', JStr []),
            (''category'', JStr ''Uncategorized''), (''themeColor'', JNull),
            (''sources'', JArr [])]"
  by code_simp

theorem raw_id_verbatim_witness:
  "(\<exists>item. normalize_record (JObj [(''id'', JStr ''m1'')]) 7 = Inr item
      \<and> property item ''id'' = JStr ''m1'')
   \<and> derived_id (JStr ''A'') 7
       = Inr (property [(''id'', JStr ''a-7''), (''title'', JStr ''A''), (''year'', JUndefined),
            (''description'', JStr []), (''poster'', JStr []),
            (''category'', JStr ''Uncategorized''), (''themeColor'', JNull),
            (''sources'', JArr [])] ''id'')"
proof -
  have f1: "raw_field (JObj [(''id'', JStr ''m1'')]) ''id'' = JStr ''m1''"
    by (simp add: raw_field_def property_def)
  with raw_id_verbatim [of "JObj [(''id'', JStr ''m1'')]" 7]
  have a: "\<exists>item. normalize_record (JObj [(''id'', JStr ''m1'')]) 7 = Inr item
      \<and> property item ''id'' = JStr ''m1''"
    by simp
  let ?raw = "JObj [(''id'', JStr []), (''title'', JStr ''A'')]"
  let ?item = "[(''id'', JStr ''a-7''), (''title'', JStr ''A''), (''year'', JUndefined),
            (''description'', JStr []), (''poster'', JStr []),
            (''category'', JStr ''Uncategorized''), (''themeColor'', JNull),
            (''sources'', JArr [])]"
  have f2: "raw_field ?raw ''id'' = JStr []" "raw_field ?raw ''title'' = JStr ''A''"
    by (simp_all add: raw_field_def property_def)
  have n: "normalize_record ?raw 7 = Inr ?item"
    by code_simp
  from raw_id_verbatim [of ?raw 7 ?item] f2 n
  have "derived_id (JStr ''A'') 7 = Inr (property ?item ''id'')"
    by simp
  with a show ?thesis by simp
qed

section \<open>Groups\<close>

lemma group_of_update:
  "group_of (AList.update c v acc) cat = (if cat = c then v else group_of acc cat)"
  by (simp add: group_of_def update_conv')

lemma group_loop_groups:
  "group_loop acc items = Inr g \<Longrightarrow>
   group_of g cat = group_of acc cat @ filter (\<lambda>i. group_key i = cat) items"
proof (induction items arbitrary: acc)
  case Nil
  then show ?case by simp
next
  case (Cons item rest)
  from Cons.prems obtain acc' where step: "group_step acc item = Inr acc'"
    and loop: "group_loop acc' rest = Inr g"
    by (auto split: sum.splits)
  from step have acc': "acc' = AList.update (group_key item) (group_of acc (group_key item) @ [item]) acc"
    by (auto simp: group_step_def Let_def split: if_splits)
  from Cons.IH [OF loop] show ?case
    by (simp add: acc' group_of_update)
qed

lemma groupItems_groups:
  "groupItems items = Inr g \<Longrightarrow> group_of g cat = filter (\<lambda>i. group_key i = cat) items"
  using group_loop_groups [of "[]" items g cat] by (simp add: groupItems_def group_of_def)

lemma normalize_category_truthy:
  assumes "normalize_record raw t = Inr item"
  shows "truthy (property item ''category'')"
proof -
  from assms have nn: "raw \<noteq> JNull" "raw \<noteq> JUndefined"
    using normalize_Inr_nonnull by blast+
  from assms show ?thesis
    unfolding normalize_eq [OF nn]
    by (auto simp: property_def or_else_def split: sum.splits)
qed

text \<open>
  C10. An item whose category is absent, \<^verbatim>\<open>null\<close> or the empty string is put into the group
  keyed \<^verbatim>\<open>Featured\<close>, not \<^verbatim>\<open>Uncategorized\<close>. An Item produced by normalization has a truthy
  category, so that grouping never takes the fallback for it.
\<close>

theorem featured_fallback:
  "(property item ''category'' \<in> {JUndefined, JNull, JStr []} \<longrightarrow>
      group_key item = ''Featured''
      \<and> (\<forall>items g. item \<in> set items \<and> groupItems items = Inr g \<longrightarrow>
            item \<in> set (group_of g ''Featured'') \<and> item \<notin> set (group_of g ''Uncategorized'')))
   \<and> (\<forall>raw t. normalize_record raw t = Inr item \<longrightarrow>
         truthy (property item ''category'')
         \<and> group_key item = to_string (property item ''category''))"
proof (intro conjI impI allI)
  assume "property item ''category'' \<in> {JUndefined, JNull, JStr []}"
  then show key: "group_key item = ''Featured''"
    by (auto simp: group_key_def or_else_def)
  fix items g
  assume "item \<in> set items \<and> groupItems items = Inr g"
  then have "item \<in> set items" and g: "groupItems items = Inr g" by simp_all
  with key show "item \<in> set (group_of g ''Featured'')"
    by (simp add: groupItems_groups [OF g])
  from key show "item \<notin> set (group_of g ''Uncategorized'')"
    by (simp add: groupItems_groups [OF g])
next
  fix raw t
  assume "normalize_record raw t = Inr item"
  then show c: "truthy (property item ''category'')"
    by (rule normalize_category_truthy)
  then show "group_key item = to_string (property item ''category'')"
    by (simp add: group_key_def or_else_def)
qed

theorem featured_fallback_witness:
  "group_key [(''id'', JStr ''x''), (''category'', JNull)] = ''Featured''
   \<and> groupItems [[(''id'', JStr ''x''), (''category'', JNull)]]
       = Inr [(''Featured'', [[(''id'', JStr ''x''), (''category'', JNull)]])]
   \<and> [(''id'', JStr ''x''), (''category'', JNull)]
       \<in> set (group_of [(''Featured'', [[(''id'', JStr ''x''), (''category'', JNull)]])] ''Featured'')
   \<and> normalize_record (JObj [(''id'', JStr ''x''), (''category'', JNull)]) 0
       = Inr [(''id'', JStr ''x''), (''title'', JStr ''Untitled''), (''year'', JUndefined),
              (''description'', JStr []), (''poster'', JStr []),
              (''category'', JStr ''Uncategorized''), (''themeColor'', JNull),
              (''sources'', JArr [])]
   \<and> group_key [(''id'', JStr ''x''), (''title'', JStr ''Untitled''), (''year'', JUndefined),
              (''description'', JStr []), (''poster'', JStr []),
              (''category'', JStr ''Uncategorized''), (''themeColor'', JNull),
              (''sources'', JArr [])] = ''Uncategorized''"
proof -
  let ?item = "[(''id'', JStr ''x''), (''category'', JNull)]"
  let ?norm = "[(''id'', JStr ''x''), (''title'', JStr ''Untitled''), (''year'', JUndefined),
              (''description'', JStr []), (''poster'', JStr []),
              (''category'', JStr ''Uncategorized''), (''themeColor'', JNull),
              (''sources'', JArr [])]"
  have cat: "property ?item ''category'' \<in> {JUndefined, JNull, JStr []}"
    by (simp add: property_def)
  have grp: "groupItems [?item] = Inr [(''Featured'', [?item])]"
    by (simp add: groupItems_def group_step_def group_key_def or_else_def property_def
        group_of_def object_prototype_keys_def)
  have nrm: "normalize_record (JObj ?item) 0 = Inr ?norm"
    by (simp add: normalize_record_def bind_result_def property_def or_else_def)
  from featured_fallback [of ?item] cat
  have a: "group_key ?item = ''Featured''"
    and every: "\<forall>items g. ?item \<in> set items \<and> groupItems items = Inr g \<longrightarrow>
            ?item \<in> set (group_of g ''Featured'')
            \<and> ?item \<notin> set (group_of g ''Uncategorized'')"
    by blast+
  from every [rule_format, of "[?item]" "[(''Featured'', [?item])]"] grp
  have b: "?item \<in> set (group_of [(''Featured'', [?item])] ''Featured'')"
    by simp
  from featured_fallback [of ?norm] nrm
  have "group_key ?norm = to_string (property ?norm ''category'')"
    by blast
  then have c: "group_key ?norm = ''Uncategorized''"
    by (simp add: property_def)
  from a b c grp nrm show ?thesis by simp
qed

section \<open>Hero selection\<close>












section \<open>Search\<close>

lemma starts_with_iff: "starts_with s q \<longleftrightarrow> (\<exists>post. s = q @ post)"
  by (induction s q rule: starts_with.induct) auto

lemma str_includes_iff: "str_includes s q \<longleftrightarrow> (\<exists>pre post. s = pre @ q @ post)"
proof (induction s)
  case Nil
  then show ?case by auto
next
  case (Cons d s)
  have "(\<exists>pre post. d # s = pre @ q @ post)
        \<longleftrightarrow> (\<exists>post. d # s = q @ post) \<or> (\<exists>pre post. s = pre @ q @ post)"
  proof
    assume "\<exists>pre post. d # s = pre @ q @ post"
    then obtain pre post where eq: "d # s = pre @ q @ post" by blast
    show "(\<exists>post. d # s = q @ post) \<or> (\<exists>pre post. s = pre @ q @ post)"
    proof (cases pre)
      case Nil
      with eq show ?thesis by auto
    next
      case (Cons a pre')
      with eq have "s = pre' @ q @ post" by simp
      then show ?thesis by blast
    qed
  next
    assume "(\<exists>post. d # s = q @ post) \<or> (\<exists>pre post. s = pre @ q @ post)"
    then show "\<exists>pre post. d # s = pre @ q @ post"
    proof
      assume "\<exists>post. d # s = q @ post"
      then obtain post where "d # s = [] @ q @ post" by auto
      then show ?thesis by blast
    next
      assume "\<exists>pre post. s = pre @ q @ post"
      then obtain pre post where "d # s = (d # pre) @ q @ post" by auto
      then show ?thesis by blast
    qed
  qed
  with Cons.IH show ?case
    by (simp add: starts_with_iff)
qed

lemma pad_items: "Some i \<in> set (pad items) \<Longrightarrow> i \<in> set items"
  by (auto simp: pad_eq)

lemma category_rows_cards:
  assumes "r \<in> set (category_rows cat items)" and "ItemCard i \<in> set (cards r)"
  shows "i \<in> set items"
proof -
  from assms(1) obtain j where r: "r = row_at cat (pad items) j"
    by (auto simp: category_rows_eq)
  with assms(2) obtain x where x: "x \<in> set (take 8 (drop (8 * j) (pad items)))"
    and card: "make_card x = ItemCard i"
    by (auto simp: row_at_def)
  from card have "x = Some i"
    by (cases x) (simp_all add: make_card_def)
  moreover from x have "x \<in> set (pad items)"
    by (meson in_set_takeD in_set_dropD)
  ultimately show ?thesis
    by (simp add: pad_items)
qed

lemma renderRows_cards:
  assumes "renderRows g = Rows rs" and "r \<in> set rs" and "ItemCard i \<in> set (cards r)"
  shows "\<exists>cat. i \<in> set (group_of g cat)"
proof -
  from assms(1) have "rs = concat (map (\<lambda>cat. category_rows cat (group_of g cat)) (object_keys g))"
    by (simp add: renderRows_def split: if_splits)
  with assms(2) obtain cat where "r \<in> set (category_rows cat (group_of g cat))"
    by auto
  from this assms(3) have "i \<in> set (group_of g cat)"
    by (rule category_rows_cards)
  then show ?thesis ..
qed

text \<open>
  C5, as amended. After a search with a non-blank input that ends without an exception,
  every Item on a card of the rendered rows is an Item of the cache, and the lower-cased
  concatenation of its title, a space, its description, a space and its category contains
  the lower-cased, trimmed input. With a blank input the search is \<^verbatim>\<open>renderAll\<close>, the
  unfiltered view.
\<close>

theorem search_narrowing:
  "(trim (toLowerCase input) \<noteq> [] \<and> onSearch input st = (st', None)
      \<and> rowsEl st' = Rows rs \<and> r \<in> set rs \<and> ItemCard i \<in> set (cards r)
    \<longrightarrow> i \<in> set (itemsCache st)
        \<and> (\<exists>pre post. toLowerCase (search_text i) = pre @ trim (toLowerCase input) @ post))
   \<and> (trim (toLowerCase input) = [] \<longrightarrow> onSearch input st = renderAll st)"
proof (intro conjI impI)
  assume a: "trim (toLowerCase input) \<noteq> [] \<and> onSearch input st = (st', None)
      \<and> rowsEl st' = Rows rs \<and> r \<in> set rs \<and> ItemCard i \<in> set (cards r)"
  let ?q = "trim (toLowerCase input)"
  let ?filtered = "filter (matches ?q) (itemsCache st)"
  from a obtain g where g: "groupItems ?filtered = Inr g" and st': "st' = st\<lparr>rowsEl := renderRows g\<rparr>"
    by (auto simp: onSearch_def Let_def split: sum.splits)
  from a st' have "renderRows g = Rows rs" by simp
  with a obtain cat where "i \<in> set (group_of g cat)"
    using renderRows_cards by blast
  then have "i \<in> set ?filtered"
    by (simp add: groupItems_groups [OF g])
  then show "i \<in> set (itemsCache st)"
    and "\<exists>pre post. toLowerCase (search_text i) = pre @ ?q @ post"
    by (simp_all add: matches_def str_includes_iff)
next
  assume "trim (toLowerCase input) = []"
  then show "onSearch input st = renderAll st"
    by (simp add: onSearch_def)
qed


text \<open>
  C5 as stated fails: the input \<^verbatim>\<open>a b\<close> matches across the space that joins the title
  \<^verbatim>\<open>a\<close> and the description \<^verbatim>\<open>b\<close>, though it occurs in none of title, description and
  category.
\<close>

theorem search_narrowing_counterexample:
  "rowsEl (fst (onSearch ''a b''
      \<lparr>db = [], itemsCache = [[(''id'', JStr ''k''), (''title'', JStr ''a''),
                               (''description'', JStr ''b''), (''category'', JStr ''c'')]],
       events = [], heroEl = renderHero no_content_hero, rowsEl = EmptyNotice\<rparr>))
   = Rows [\<lparr>label = ''c'',
            cards = [ItemCard [(''id'', JStr ''k''), (''title'', JStr ''a''),
                               (''description'', JStr ''b''), (''category'', JStr ''c'')],
                     EmptyCard, EmptyCard, EmptyCard, EmptyCard, EmptyCard, EmptyCard,
                     EmptyCard]\<rparr>]
   \<and> \<not> str_includes (toLowerCase ''a'') (trim (toLowerCase ''a b''))
   \<and> \<not> str_includes (toLowerCase ''b'') (trim (toLowerCase ''a b''))
   \<and> \<not> str_includes (toLowerCase ''c'') (trim (toLowerCase ''a b''))"
  by code_simp

theorem search_narrowing_witness:
  "[(''id'', JStr ''k''), (''title'', JStr ''a''), (''description'', JStr ''b''),
    (''category'', JStr ''c'')]
     \<in> set [[(''id'', JStr ''k''), (''title'', JStr ''a''), (''description'', JStr ''b''),
              (''category'', JStr ''c'')],
             [(''id'', JStr ''m''), (''title'', JStr ''z''), (''description'', JStr ''y''),
              (''category'', JStr ''c'')]]
   \<and> (\<exists>pre post. ''a b c'' = pre @ ''b c'' @ post)
   \<and> onSearch ''  ''
        \<lparr>db = [], itemsCache = [], events = [], heroEl = renderHero no_content_hero,
         rowsEl = EmptyNotice\<rparr>
       = renderAll
        \<lparr>db = [], itemsCache = [], events = [], heroEl = renderHero no_content_hero,
         rowsEl = EmptyNotice\<rparr>"
proof -
  define k where "k = [(''id'', JStr ''k''), (''title'', JStr ''a''), (''description'', JStr ''b''),
    (''category'', JStr ''c'')]"
  define m where "m = [(''id'', JStr ''m''), (''title'', JStr ''z''), (''description'', JStr ''y''),
    (''category'', JStr ''c'')]"
  define st where "st = \<lparr>db = [], itemsCache = [k, m], events = [],
    heroEl = renderHero no_content_hero, rowsEl = EmptyNotice\<rparr>"
  define r where "r = \<lparr>label = ''c'', cards = [ItemCard k, EmptyCard, EmptyCard, EmptyCard,
    EmptyCard, EmptyCard, EmptyCard, EmptyCard]\<rparr>"
  define st0 where "st0 = \<lparr>db = [], itemsCache = [], events = [],
    heroEl = renderHero no_content_hero, rowsEl = EmptyNotice\<rparr>"
  have q: "trim (toLowerCase '' B c '') = ''b c''"
    by code_simp
  have run: "onSearch '' B c '' st = (st\<lparr>rowsEl := Rows [r]\<rparr>, None)"
    unfolding st_def r_def k_def m_def by code_simp
  have lowered: "toLowerCase (search_text k) = ''a b c''"
    unfolding k_def by code_simp
  have blank: "trim (toLowerCase ''  '') = []"
    by code_simp
  note th = search_narrowing [of "'' B c ''" st "st\<lparr>rowsEl := Rows [r]\<rparr>" "[r]" r k]
  from th q run have "k \<in> set (itemsCache st)
      \<and> (\<exists>pre post. toLowerCase (search_text k) = pre @ trim (toLowerCase '' B c '') @ post)"
    by (simp add: r_def)
  then have a: "k \<in> set [k, m] \<and> (\<exists>pre post. ''a b c'' = pre @ ''b c'' @ post)"
    by (simp add: st_def lowered q)
  from search_narrowing [of "''  ''" st0] blank have "onSearch ''  '' st0 = renderAll st0"
    by blast
  with a show ?thesis
    unfolding k_def m_def st0_def by blast
qed

section \<open>Seeding\<close>

lemma seed_loop_cache:
  "seed_loop e k records st = (st', res) \<Longrightarrow> itemsCache st' = itemsCache st"
proof (induction records arbitrary: k st)
  case Nil
  then show ?case by simp
next
  case (Cons it rest)
  show ?case
  proof (cases "normalize_record it (now e k)")
    case (Inl err)
    with Cons.prems show ?thesis by simp
  next
    case (Inr item)
    show ?thesis
    proof (cases "idbPut e k (db st) item")
      case (Inl err)
      with Inr Cons.prems show ?thesis by auto
    next
      case put: (Inr s)
      with Inr Cons.prems
      have "seed_loop e (Suc k) rest (st\<lparr>db := s, events := events st @ [PutAttempt item]\<rparr>)
            = (st', res)"
        by simp
      from Cons.IH [OF this] show ?thesis by simp
    qed
  qed
qed

lemma seed_loop_append:
  "seed_loop e k (pre @ post) st =
     (case seed_loop e k pre st of
        (st1, None) \<Rightarrow> seed_loop e (k + length pre) post st1
      | (st1, Some err) \<Rightarrow> (st1, Some err))"
proof (induction pre arbitrary: k st)
  case Nil
  then show ?case by simp
next
  case (Cons it rest)
  show ?case
  proof (cases "normalize_record it (now e k)")
    case (Inl err)
    then show ?thesis by simp
  next
    case (Inr item)
    show ?thesis
    proof (cases "idbPut e k (db st) item")
      case (Inl err)
      with Inr show ?thesis by simp
    next
      case put: (Inr s)
      with Inr Cons.IH [of "Suc k" "st\<lparr>db := s, events := events st @ [PutAttempt item]\<rparr>"]
      show ?thesis by (simp split: prod.split option.split)
    qed
  qed
qed

lemma seed_from_catalog:
  assumes "itemsCache st = []"
    and "fetch_result e = HttpResponse True (Some catalog)"
    and "iterate catalog = Inr records"
    and "seed_loop e 0 records (st\<lparr>events := events st @ [Fetch]\<rparr>) = (st2, res)"
  shows "seedFromCatalogIfEmpty e st =
     (case res of
        Some err \<Rightarrow> warn err st2
      | None \<Rightarrow>
          if getAll_ok e
          then st2\<lparr>itemsCache := store_getAll (db st2), events := events st2 @ [GetAll]\<rparr>
          else warn StorageError st2)"
  using assms
  by (simp add: seedFromCatalogIfEmpty_def Let_def loadItems_def idbGetAll_def
      split: option.split)

lemma seed_reloaded:
  assumes "itemsCache st = []" and "last (events (seedFromCatalogIfEmpty e st)) = GetAll"
  shows "itemsCache (seedFromCatalogIfEmpty e st) = store_getAll (db (seedFromCatalogIfEmpty e st))"
proof (cases "fetch_result e")
  case NetworkFailure
  with assms show ?thesis
    by (simp add: seedFromCatalogIfEmpty_def Let_def warn_def)
next
  case (HttpResponse ok body)
  show ?thesis
  proof (cases "ok \<and> body \<noteq> None \<and> (\<exists>records. iterate (the body) = Inr records)")
    case False
    with assms HttpResponse show ?thesis
      by (auto simp: seedFromCatalogIfEmpty_def Let_def warn_def split: option.splits sum.splits)
  next
    case True
    then obtain catalog records where f: "fetch_result e = HttpResponse True (Some catalog)"
      and it: "iterate catalog = Inr records"
      using HttpResponse by auto
    obtain st2 res where loop:
      "seed_loop e 0 records (st\<lparr>events := events st @ [Fetch]\<rparr>) = (st2, res)"
      by (cases "seed_loop e 0 records (st\<lparr>events := events st @ [Fetch]\<rparr>)")
    note eq = seed_from_catalog [OF assms(1) f it loop]
    from assms(2) show ?thesis
      unfolding eq by (cases res) (auto simp: warn_def split: if_splits)
  qed
qed

lemma renderAll_frame: "events (fst (renderAll st)) = events st" "db (fst (renderAll st)) = db st"
  by (simp_all add: renderAll_def Let_def split: sum.split)

text \<open>
  C3, as amended. The records are normalized and put in manifest order until the first
  failure. When the records before \<open>it\<close> have been put and the put of \<open>it\<close> is rejected, the
  exception leaves the loop: whatever follows \<open>it\<close> in the manifest is neither normalized
  nor put, the records put before stay in the store, the cache stays empty, and the only
  report is the logged error (no partial-failure condition and no count).
\<close>

theorem seeding_stops_at_first_failure:
  "itemsCache st = []
   \<and> fetch_result e = HttpResponse True (Some (JArr (pre @ it # post)))
   \<and> seed_loop e 0 pre (st\<lparr>events := events st @ [Fetch]\<rparr>) = (st1, None)
   \<and> normalize_record it (now e (length pre)) = Inr item
   \<and> idbPut e (length pre) (db st1) item = Inl err
   \<longrightarrow> seedFromCatalogIfEmpty e st = st1\<lparr>events := events st1 @ [PutAttempt item, Warn err]\<rparr>
     \<and> itemsCache (seedFromCatalogIfEmpty e st) = []
     \<and> db (seedFromCatalogIfEmpty e st) = db st1"
proof (intro impI)
  assume a: "itemsCache st = []
   \<and> fetch_result e = HttpResponse True (Some (JArr (pre @ it # post)))
   \<and> seed_loop e 0 pre (st\<lparr>events := events st @ [Fetch]\<rparr>) = (st1, None)
   \<and> normalize_record it (now e (length pre)) = Inr item
   \<and> idbPut e (length pre) (db st1) item = Inl err"
  let ?st0 = "st\<lparr>events := events st @ [Fetch]\<rparr>"
  from a have pre: "seed_loop e 0 pre ?st0 = (st1, None)" by simp
  from a have "seed_loop e (length pre) (it # post) st1
      = (st1\<lparr>events := events st1 @ [PutAttempt item]\<rparr>, Some err)"
    by simp
  with pre have loop: "seed_loop e 0 (pre @ it # post) ?st0
      = (st1\<lparr>events := events st1 @ [PutAttempt item]\<rparr>, Some err)"
    by (simp add: seed_loop_append)
  from a have "iterate (JArr (pre @ it # post)) = Inr (pre @ it # post)"
    and "itemsCache st = []"
    and "fetch_result e = HttpResponse True (Some (JArr (pre @ it # post)))"
    by simp_all
  from seed_from_catalog [OF this(2) this(3) this(1) loop]
  have result: "seedFromCatalogIfEmpty e st
      = st1\<lparr>events := events st1 @ [PutAttempt item, Warn err]\<rparr>"
    by (simp add: warn_def)
  from seed_loop_cache [OF pre] a have "itemsCache st1 = []" by simp
  with result show "seedFromCatalogIfEmpty e st
        = st1\<lparr>events := events st1 @ [PutAttempt item, Warn err]\<rparr>
     \<and> itemsCache (seedFromCatalogIfEmpty e st) = []
     \<and> db (seedFromCatalogIfEmpty e st) = db st1"
    by simp
qed

text \<open>
  C3 as stated fails: the medium rejects the second of three puts, and the third record
  is never put.
\<close>

theorem seeding_stops_at_first_failure_counterexample:
  "events (seedFromCatalogIfEmpty
      \<lparr>fetch_result = HttpResponse True
         (Some (JArr [JObj [(''id'', JStr ''a'')], JObj [(''id'', JStr ''b'')],
                      JObj [(''id'', JStr ''c'')]])),
       now = frozen_clock, put_ok = accept_first, getAll_ok = True\<rparr> first_run)
     = [Fetch, PutAttempt (plain_item ''a'' ''Untitled''),
        PutAttempt (plain_item ''b'' ''Untitled''), Warn StorageError]
   \<and> db (seedFromCatalogIfEmpty
      \<lparr>fetch_result = HttpResponse True
         (Some (JArr [JObj [(''id'', JStr ''a'')], JObj [(''id'', JStr ''b'')],
                      JObj [(''id'', JStr ''c'')]])),
       now = frozen_clock, put_ok = accept_first, getAll_ok = True\<rparr> first_run)
     = [(JStr ''a'', plain_item ''a'' ''Untitled'')]"
  by code_simp

text \<open>
  A manifest of three records whose second put is rejected: the result does not mention
  the third.
\<close>

theorem seeding_stops_at_first_failure_witness:
  "seedFromCatalogIfEmpty
      \<lparr>fetch_result = HttpResponse True
         (Some (JArr [JObj [(''id'', JStr ''x'')], JObj [(''id'', JStr ''y'')],
                      JObj [(''id'', JStr ''z'')]])),
       now = frozen_clock, put_ok = accept_first, getAll_ok = True\<rparr> first_run
     = first_run\<lparr>db := [(JStr ''x'', plain_item ''x'' ''Untitled'')],
         events := [Fetch, PutAttempt (plain_item ''x'' ''Untitled''),
                    PutAttempt (plain_item ''y'' ''Untitled''), Warn StorageError]\<rparr>"
proof -
  let ?e = "\<lparr>fetch_result = HttpResponse True
         (Some (JArr [JObj [(''id'', JStr ''x'')], JObj [(''id'', JStr ''y'')],
                      JObj [(''id'', JStr ''z'')]])),
       now = frozen_clock, put_ok = accept_first, getAll_ok = True\<rparr>"
  let ?st1 = "first_run\<lparr>db := [(JStr ''x'', plain_item ''x'' ''Untitled'')],
         events := [Fetch, PutAttempt (plain_item ''x'' ''Untitled'')]\<rparr>"
  have hyp: "itemsCache first_run = []
     \<and> fetch_result ?e = HttpResponse True
          (Some (JArr ([JObj [(''id'', JStr ''x'')]] @ JObj [(''id'', JStr ''y'')]
                       # [JObj [(''id'', JStr ''z'')]])))
     \<and> seed_loop ?e 0 [JObj [(''id'', JStr ''x'')]]
          (first_run\<lparr>events := events first_run @ [Fetch]\<rparr>) = (?st1, None)
     \<and> normalize_record (JObj [(''id'', JStr ''y'')]) (now ?e (length [JObj [(''id'', JStr ''x'')]]))
          = Inr (plain_item ''y'' ''Untitled'')
     \<and> idbPut ?e (length [JObj [(''id'', JStr ''x'')]]) (db ?st1) (plain_item ''y'' ''Untitled'')
          = Inl StorageError"
    by code_simp
  from seeding_stops_at_first_failure [of first_run ?e "[JObj [(''id'', JStr ''x'')]]"
      "JObj [(''id'', JStr ''y'')]" "[JObj [(''id'', JStr ''z'')]]" ?st1
      "plain_item ''y'' ''Untitled''" StorageError] hyp
  have "seedFromCatalogIfEmpty ?e first_run
      = ?st1\<lparr>events := events ?st1 @ [PutAttempt (plain_item ''y'' ''Untitled''),
                                        Warn StorageError]\<rparr>"
    by blast
  then show ?thesis by simp
qed

text \<open>
  C2, as amended. After seeding from a fetched manifest, the store holds what the loop
  put. The cache is reloaded from \<^verbatim>\<open>getAll\<close>, and then equals the contents of the store, only
  when no normalization and no put failed and \<^verbatim>\<open>getAll\<close> itself succeeds; after any failure
  the cache is not reloaded and stays empty.
\<close>

theorem cache_after_seeding:
  "itemsCache st = []
   \<and> fetch_result e = HttpResponse True (Some catalog)
   \<and> iterate catalog = Inr records
   \<and> seed_loop e 0 records (st\<lparr>events := events st @ [Fetch]\<rparr>) = (st2, res)
   \<longrightarrow> db (seedFromCatalogIfEmpty e st) = db st2
     \<and> (res = None \<and> getAll_ok e \<longrightarrow>
          itemsCache (seedFromCatalogIfEmpty e st) = store_getAll (db (seedFromCatalogIfEmpty e st))
          \<and> events (seedFromCatalogIfEmpty e st) = events st2 @ [GetAll])
     \<and> (\<forall>err. res = Some err \<longrightarrow>
          itemsCache (seedFromCatalogIfEmpty e st) = []
          \<and> events (seedFromCatalogIfEmpty e st) = events st2 @ [Warn err])
     \<and> (res = None \<and> \<not> getAll_ok e \<longrightarrow>
          itemsCache (seedFromCatalogIfEmpty e st) = []
          \<and> events (seedFromCatalogIfEmpty e st) = events st2 @ [Warn StorageError])"
proof (intro impI)
  assume a: "itemsCache st = []
   \<and> fetch_result e = HttpResponse True (Some catalog)
   \<and> iterate catalog = Inr records
   \<and> seed_loop e 0 records (st\<lparr>events := events st @ [Fetch]\<rparr>) = (st2, res)"
  then have loop: "seed_loop e 0 records (st\<lparr>events := events st @ [Fetch]\<rparr>) = (st2, res)"
    by simp
  from seed_loop_cache [OF loop] a have empty: "itemsCache st2 = []" by simp
  from a have "itemsCache st = []" "fetch_result e = HttpResponse True (Some catalog)"
    "iterate catalog = Inr records"
    by simp_all
  note eq = seed_from_catalog [OF this loop]
  show "db (seedFromCatalogIfEmpty e st) = db st2
     \<and> (res = None \<and> getAll_ok e \<longrightarrow>
          itemsCache (seedFromCatalogIfEmpty e st) = store_getAll (db (seedFromCatalogIfEmpty e st))
          \<and> events (seedFromCatalogIfEmpty e st) = events st2 @ [GetAll])
     \<and> (\<forall>err. res = Some err \<longrightarrow>
          itemsCache (seedFromCatalogIfEmpty e st) = []
          \<and> events (seedFromCatalogIfEmpty e st) = events st2 @ [Warn err])
     \<and> (res = None \<and> \<not> getAll_ok e \<longrightarrow>
          itemsCache (seedFromCatalogIfEmpty e st) = []
          \<and> events (seedFromCatalogIfEmpty e st) = events st2 @ [Warn StorageError])"
    unfolding eq using empty by (cases res) (simp_all add: warn_def)
qed

text \<open>
  C2 as stated fails: the first record is persisted, the put of the second is refused
  (\<^verbatim>\<open>true\<close> is not a valid key), and the cache stays empty though the store holds an Item.
\<close>

theorem cache_after_seeding_counterexample:
  "store_getAll (db (seedFromCatalogIfEmpty
      \<lparr>fetch_result = HttpResponse True
         (Some (JArr [JObj [(''id'', JStr ''a'')], JObj [(''id'', JBool True)]])),
       now = frozen_clock, put_ok = accept_all, getAll_ok = True\<rparr> first_run))
     = [plain_item ''a'' ''Untitled'']
   \<and> itemsCache (seedFromCatalogIfEmpty
      \<lparr>fetch_result = HttpResponse True
         (Some (JArr [JObj [(''id'', JStr ''a'')], JObj [(''id'', JBool True)]])),
       now = frozen_clock, put_ok = accept_all, getAll_ok = True\<rparr> first_run)
     = []"
  by code_simp

text \<open>
  Example scenario 1 (the cache holds the one seeded Item), and a run whose second put
  is rejected (the cache stays empty).
\<close>

theorem cache_after_seeding_witness:
  "itemsCache (seedFromCatalogIfEmpty
      \<lparr>fetch_result = HttpResponse True (Some (JArr [JObj [(''title'', JStr ''Alpha'')]])),
       now = frozen_clock, put_ok = accept_all, getAll_ok = True\<rparr> first_run)
     = [plain_item ''alpha-1700'' ''Alpha'']
   \<and> itemsCache (seedFromCatalogIfEmpty
      \<lparr>fetch_result = HttpResponse True
         (Some (JArr [JObj [(''id'', JStr ''n1'')], JObj [(''id'', JStr ''n2'')]])),
       now = frozen_clock, put_ok = accept_first, getAll_ok = True\<rparr> first_run)
     = []"
proof -
  let ?e = "\<lparr>fetch_result = HttpResponse True (Some (JArr [JObj [(''title'', JStr ''Alpha'')]])),
       now = frozen_clock, put_ok = accept_all, getAll_ok = True\<rparr>"
  let ?st2 = "first_run\<lparr>db := [(JStr ''alpha-1700'', plain_item ''alpha-1700'' ''Alpha'')],
       events := [Fetch, PutAttempt (plain_item ''alpha-1700'' ''Alpha'')]\<rparr>"
  have hyp: "itemsCache first_run = []
     \<and> fetch_result ?e = HttpResponse True (Some (JArr [JObj [(''title'', JStr ''Alpha'')]]))
     \<and> iterate (JArr [JObj [(''title'', JStr ''Alpha'')]]) = Inr [JObj [(''title'', JStr ''Alpha'')]]
     \<and> seed_loop ?e 0 [JObj [(''title'', JStr ''Alpha'')]]
          (first_run\<lparr>events := events first_run @ [Fetch]\<rparr>) = (?st2, None)"
    by code_simp
  have ok: "getAll_ok ?e" by simp
  from cache_after_seeding [of first_run ?e "JArr [JObj [(''title'', JStr ''Alpha'')]]"
      "[JObj [(''title'', JStr ''Alpha'')]]" ?st2 None] hyp ok
  have "itemsCache (seedFromCatalogIfEmpty ?e first_run)
          = store_getAll (db (seedFromCatalogIfEmpty ?e first_run))"
    and "db (seedFromCatalogIfEmpty ?e first_run) = db ?st2"
    by blast+
  then have a: "itemsCache (seedFromCatalogIfEmpty ?e first_run)
      = [plain_item ''alpha-1700'' ''Alpha'']"
    by (simp add: store_getAll_def)
  let ?f = "\<lparr>fetch_result = HttpResponse True
         (Some (JArr [JObj [(''id'', JStr ''n1'')], JObj [(''id'', JStr ''n2'')]])),
       now = frozen_clock, put_ok = accept_first, getAll_ok = True\<rparr>"
  let ?st3 = "first_run\<lparr>db := [(JStr ''n1'', plain_item ''n1'' ''Untitled'')],
       events := [Fetch, PutAttempt (plain_item ''n1'' ''Untitled''),
                  PutAttempt (plain_item ''n2'' ''Untitled'')]\<rparr>"
  have hyp2: "itemsCache first_run = []
     \<and> fetch_result ?f = HttpResponse True
          (Some (JArr [JObj [(''id'', JStr ''n1'')], JObj [(''id'', JStr ''n2'')]]))
     \<and> iterate (JArr [JObj [(''id'', JStr ''n1'')], JObj [(''id'', JStr ''n2'')]])
          = Inr [JObj [(''id'', JStr ''n1'')], JObj [(''id'', JStr ''n2'')]]
     \<and> seed_loop ?f 0 [JObj [(''id'', JStr ''n1'')], JObj [(''id'', JStr ''n2'')]]
          (first_run\<lparr>events := events first_run @ [Fetch]\<rparr>) = (?st3, Some StorageError)"
    by code_simp
  from cache_after_seeding [of first_run ?f
      "JArr [JObj [(''id'', JStr ''n1'')], JObj [(''id'', JStr ''n2'')]]"
      "[JObj [(''id'', JStr ''n1'')], JObj [(''id'', JStr ''n2'')]]" ?st3 "Some StorageError"] hyp2
  have b: "itemsCache (seedFromCatalogIfEmpty ?f first_run) = []"
    by blast
  from a b show ?thesis by blast
qed

text \<open>
  C7, as amended. The guard of \<^verbatim>\<open>seedFromCatalogIfEmpty\<close> tests the cache, not the store: a
  call with a non-empty cache changes nothing (no fetch, no put, nothing logged). So a
  second call is a no-op whenever the first one left the cache non-empty, which it does
  when it ended with the reload and left the store non-empty; and a later session start
  on a non-empty store only reads the store.
\<close>

theorem seeding_idempotent:
  "(itemsCache st \<noteq> [] \<longrightarrow> seedFromCatalogIfEmpty e st = st)
   \<and> (itemsCache (seedFromCatalogIfEmpty e1 st) \<noteq> [] \<longrightarrow>
        seedFromCatalogIfEmpty e2 (seedFromCatalogIfEmpty e1 st) = seedFromCatalogIfEmpty e1 st)
   \<and> (itemsCache st = [] \<and> last (events (seedFromCatalogIfEmpty e1 st)) = GetAll
        \<and> db (seedFromCatalogIfEmpty e1 st) \<noteq> [] \<longrightarrow>
        seedFromCatalogIfEmpty e2 (seedFromCatalogIfEmpty e1 st) = seedFromCatalogIfEmpty e1 st)
   \<and> (db st \<noteq> [] \<and> getAll_ok e \<longrightarrow>
        events (fst (init e st)) = events st @ [GetAll] \<and> db (fst (init e st)) = db st)"
proof (intro conjI impI)
  show noop: "seedFromCatalogIfEmpty e st = st" if "itemsCache st \<noteq> []" for e st
    using that by (simp add: seedFromCatalogIfEmpty_def)
  then show "seedFromCatalogIfEmpty e2 (seedFromCatalogIfEmpty e1 st) = seedFromCatalogIfEmpty e1 st"
    if "itemsCache (seedFromCatalogIfEmpty e1 st) \<noteq> []"
    using that by blast
  show "seedFromCatalogIfEmpty e2 (seedFromCatalogIfEmpty e1 st) = seedFromCatalogIfEmpty e1 st"
    if a: "itemsCache st = [] \<and> last (events (seedFromCatalogIfEmpty e1 st)) = GetAll
        \<and> db (seedFromCatalogIfEmpty e1 st) \<noteq> []"
  proof -
    from a have "itemsCache (seedFromCatalogIfEmpty e1 st)
        = store_getAll (db (seedFromCatalogIfEmpty e1 st))"
      by (simp add: seed_reloaded)
    with a have "itemsCache (seedFromCatalogIfEmpty e1 st) \<noteq> []"
      by (simp add: store_getAll_def)
    then show ?thesis by (rule noop)
  qed
next
  assume a: "db st \<noteq> [] \<and> getAll_ok e"
  let ?st1 = "st\<lparr>itemsCache := store_getAll (db st), events := events st @ [GetAll]\<rparr>"
  from a have load: "loadItems e st = Inr ?st1"
    by (simp add: loadItems_def idbGetAll_def)
  from a have "itemsCache ?st1 \<noteq> []"
    by (simp add: store_getAll_def)
  then have "seedFromCatalogIfEmpty e ?st1 = ?st1"
    by (simp add: seedFromCatalogIfEmpty_def)
  with load have "init e st = renderAll ?st1"
    by (simp add: init_def)
  then show "events (fst (init e st)) = events st @ [GetAll]" and "db (fst (init e st)) = db st"
    by (simp_all add: renderAll_frame)
qed

text \<open>
  C7 as stated fails: the first call persists one Item and then fails, leaving the cache
  empty; the second call fetches and puts again although the store is not empty.
\<close>

theorem seeding_idempotent_counterexample:
  "db (seedFromCatalogIfEmpty
      \<lparr>fetch_result = HttpResponse True
         (Some (JArr [JObj [(''id'', JStr ''m1''), (''title'', JStr ''Alpha'')],
                      JObj [(''title'', JNum 5)]])),
       now = ticking_clock, put_ok = accept_all, getAll_ok = True\<rparr> first_run)
     = [(JStr ''m1'', plain_item ''m1'' ''Alpha'')]
   \<and> events (seedFromCatalogIfEmpty
      \<lparr>fetch_result = HttpResponse True
         (Some (JArr [JObj [(''id'', JStr ''m1''), (''title'', JStr ''Alpha'')],
                      JObj [(''title'', JNum 5)]])),
       now = ticking_clock, put_ok = accept_all, getAll_ok = True\<rparr>
      (seedFromCatalogIfEmpty
      \<lparr>fetch_result = HttpResponse True
         (Some (JArr [JObj [(''id'', JStr ''m1''), (''title'', JStr ''Alpha'')],
                      JObj [(''title'', JNum 5)]])),
       now = ticking_clock, put_ok = accept_all, getAll_ok = True\<rparr> first_run))
     = [Fetch, PutAttempt (plain_item ''m1'' ''Alpha''), Warn TypeError,
        Fetch, PutAttempt (plain_item ''m1'' ''Alpha''), Warn TypeError]"
  by code_simp

text \<open>
  A first call that seeds one Item, a second call, and the next session start.
\<close>

theorem seeding_idempotent_witness:
  "seedFromCatalogIfEmpty
      \<lparr>fetch_result = HttpResponse True (Some (JArr [JObj [(''title'', JStr ''Beta'')]])),
       now = ticking_clock, put_ok = accept_all, getAll_ok = True\<rparr>
      (seedFromCatalogIfEmpty
        \<lparr>fetch_result = HttpResponse True (Some (JArr [JObj [(''title'', JStr ''Beta'')]])),
         now = ticking_clock, put_ok = accept_all, getAll_ok = True\<rparr> first_run)
     = seedFromCatalogIfEmpty
        \<lparr>fetch_result = HttpResponse True (Some (JArr [JObj [(''title'', JStr ''Beta'')]])),
         now = ticking_clock, put_ok = accept_all, getAll_ok = True\<rparr> first_run
   \<and> events (fst (init
        \<lparr>fetch_result = HttpResponse True (Some (JArr [JObj [(''title'', JStr ''Beta'')]])),
         now = ticking_clock, put_ok = accept_all, getAll_ok = True\<rparr>
        (first_run\<lparr>db := [(JStr ''beta-1700'', plain_item ''beta-1700'' ''Beta'')]\<rparr>)))
     = [GetAll]"
proof -
  let ?e = "\<lparr>fetch_result = HttpResponse True (Some (JArr [JObj [(''title'', JStr ''Beta'')]])),
       now = ticking_clock, put_ok = accept_all, getAll_ok = True\<rparr>"
  let ?s = "first_run\<lparr>db := [(JStr ''beta-1700'', plain_item ''beta-1700'' ''Beta'')]\<rparr>"
  have seeded: "seedFromCatalogIfEmpty ?e first_run
      = first_run\<lparr>db := [(JStr ''beta-1700'', plain_item ''beta-1700'' ''Beta'')],
          itemsCache := [plain_item ''beta-1700'' ''Beta''],
          events := [Fetch, PutAttempt (plain_item ''beta-1700'' ''Beta''), GetAll]\<rparr>"
    by code_simp
  have h1: "itemsCache (seedFromCatalogIfEmpty ?e first_run) \<noteq> []"
    by (simp add: seeded)
  have h2: "itemsCache first_run = [] \<and> last (events (seedFromCatalogIfEmpty ?e first_run)) = GetAll
        \<and> db (seedFromCatalogIfEmpty ?e first_run) \<noteq> []"
    by (simp add: seeded) (simp add: first_run_def)
  have h3: "db ?s \<noteq> [] \<and> getAll_ok ?e"
    by simp
  from seeding_idempotent [of "seedFromCatalogIfEmpty ?e first_run" ?e ?e ?e] h1
  have a: "seedFromCatalogIfEmpty ?e (seedFromCatalogIfEmpty ?e first_run)
      = seedFromCatalogIfEmpty ?e first_run"
    by blast
  from seeding_idempotent [of first_run ?e ?e ?e] h2
  have a': "seedFromCatalogIfEmpty ?e (seedFromCatalogIfEmpty ?e first_run)
      = seedFromCatalogIfEmpty ?e first_run"
    by blast
  from seeding_idempotent [of ?s ?e ?e ?e] h3
  have "events (fst (init ?e ?s)) = events ?s @ [GetAll]"
    by blast
  then have b: "events (fst (init ?e ?s)) = [GetAll]"
    by (simp add: first_run_def)
  from a a' b show ?thesis by blast
qed

section \<open>Derived ids\<close>















end
